theory Spec2Isabelle
  imports Complex_Main "HOL-Library.Sublist"
begin

section \<open>Strings and values of the work-code screen\<close>

text \<open>
  The TypeScript under \<^verbatim>\<open>SharedComponets/src/types.ts\<close> works on JavaScript strings,
  numbers and plain objects. A string is modelled as a \<^typ>\<open>string\<close>: a list of code
  units, each \<^typ>\<open>char\<close> standing for the code unit of the same number (U+0000 to
  U+00FF). \<^verbatim>\<open>s.length\<close> is \<^term>\<open>length s\<close>.
\<close>

definition isWhiteSpace :: "char \<Rightarrow> bool" where
  \<comment> \<open>What \<^verbatim>\<open>trim()\<close> removes and what \<^verbatim>\<open>\s\<close> matches, among the code units below
      256: tab, line feed, vertical tab, form feed, carriage return, space, no-break space.\<close>
  "isWhiteSpace c =
     (c \<in> set [CHR 0x09, CHR 0x0A, CHR 0x0B, CHR 0x0C, CHR 0x0D, CHR 0x20, CHR 0xA0])"

definition trim :: "string \<Rightarrow> string" where
  "trim s = rev (dropWhile isWhiteSpace (rev (dropWhile isWhiteSpace s)))"

definition substring :: "string \<Rightarrow> nat \<Rightarrow> nat \<Rightarrow> string" where
  \<comment> \<open>\<^verbatim>\<open>s.substring(a, b)\<close>: the arguments are swapped when \<^verbatim>\<open>a > b\<close>.\<close>
  "substring s a b = take (max a b - min a b) (drop (min a b) s)"

definition removeAngleBrackets :: "string \<Rightarrow> string" where
  \<comment> \<open>\<^verbatim>\<open>.replace(/[<>]/g, '')\<close>\<close>
  "removeAngleBrackets s = filter (\<lambda>c. c \<noteq> CHR ''<'' \<and> c \<noteq> CHR ''>'') s"

definition toLowerCaseChar :: "char \<Rightarrow> char" where
  \<comment> \<open>The letters with a lower-case form among the code units below 256 are A to Z and
      U+00C0 to U+00DE without the multiplication sign U+00D7.\<close>
  "toLowerCaseChar c =
     (let n = (of_char c :: nat)
      in if (65 \<le> n \<and> n \<le> 90) \<or> (192 \<le> n \<and> n \<le> 222 \<and> n \<noteq> 215)
         then char_of (n + 32) else c)"

definition toLowerCase :: "string \<Rightarrow> string" where
  "toLowerCase s = map toLowerCaseChar s"

fun startsWith :: "string \<Rightarrow> string \<Rightarrow> bool" where
  "startsWith s [] = True"
| "startsWith [] (q # qs) = False"
| "startsWith (c # cs) (q # qs) = (c = q \<and> startsWith cs qs)"

fun includes_js :: "string \<Rightarrow> string \<Rightarrow> bool" where
  \<comment> \<open>\<^verbatim>\<open>s.includes(q)\<close>: \<^verbatim>\<open>q\<close> occurs in \<^verbatim>\<open>s\<close> at some position.\<close>
  "includes_js [] q = (q = [])"
| "includes_js (c # cs) q = (startsWith (c # cs) q \<or> includes_js cs q)"

text \<open>
  A JavaScript number is not-a-number, an infinity, or a finite value; the finite values
  are read as rationals, which is exact for the comparisons and the integrality test the
  code makes. Negative zero is \<^verbatim>\<open>Finite 0\<close>: the code never tells the two zeros apart.
\<close>

datatype jsnum = NaN | PosInfinity | NegInfinity | Finite rat

datatype jsval = JUndefined | JNull | JNum jsnum | JStr string

text \<open>
  A plain object is read by key: \<^verbatim>\<open>obj[key]\<close> is \<^verbatim>\<open>undefined\<close> for a key the object does
  not have. Properties inherited from \<^verbatim>\<open>Object.prototype\<close> are not modelled.
\<close>

type_synonym jsobject = "string \<Rightarrow> jsval"

definition emptyObject :: jsobject where
  "emptyObject = (\<lambda>_. JUndefined)"

definition falsy :: "jsval \<Rightarrow> bool" where
  \<comment> \<open>\<^verbatim>\<open>!v\<close>\<close>
  "falsy v = (v = JUndefined \<or> v = JNull \<or> v = JStr [] \<or> v = JNum (Finite 0) \<or> v = JNum NaN)"

definition Number_isInteger :: "jsval \<Rightarrow> bool" where
  "Number_isInteger v =
     (case v of JNum (Finite q) \<Rightarrow> of_int \<lfloor>q\<rfloor> = q | _ \<Rightarrow> False)"

fun jsnum_le :: "jsnum \<Rightarrow> jsnum \<Rightarrow> bool" where
  \<comment> \<open>\<^verbatim>\<open>a <= b\<close> on numbers: false as soon as one side is not-a-number.\<close>
  "jsnum_le NaN _ = False"
| "jsnum_le _ NaN = False"
| "jsnum_le NegInfinity _ = True"
| "jsnum_le _ PosInfinity = True"
| "jsnum_le PosInfinity _ = False"
| "jsnum_le _ NegInfinity = False"
| "jsnum_le (Finite a) (Finite b) = (a \<le> b)"

text \<open>A thrown error: an \<^verbatim>\<open>Error\<close> with its message, or a \<^verbatim>\<open>TypeError\<close>.\<close>

datatype error = Error string | TypeError

section \<open>SecurityValidator\<close>

definition sanitizeInput :: "string option \<Rightarrow> string" where
  \<comment> \<open>\<^verbatim>\<open>None\<close> is an absent (null or undefined) argument, which \<^verbatim>\<open>!input\<close> catches
      together with the empty string.\<close>
  "sanitizeInput input =
     (case input of
        None \<Rightarrow> []
      | Some s \<Rightarrow>
          if s = [] then []
          else substring (trim (removeAngleBrackets s)) 0 1000)"

definition isAsciiLetter :: "char \<Rightarrow> bool" where
  "isAsciiLetter c =
     (let n = (of_char c :: nat) in (97 \<le> n \<and> n \<le> 122) \<or> (65 \<le> n \<and> n \<le> 90))"

definition isAsciiDigit :: "char \<Rightarrow> bool" where
  "isAsciiDigit c = (let n = (of_char c :: nat) in 48 \<le> n \<and> n \<le> 57)"

definition patternChar :: "char \<Rightarrow> bool" where
  \<comment> \<open>The character class \<^verbatim>\<open>[a-zA-Z0-9\s\-_]\<close>\<close>
  "patternChar c =
     (isAsciiLetter c \<or> isAsciiDigit c \<or> isWhiteSpace c \<or> c = CHR ''-'' \<or> c = CHR ''_'')"

definition validateWorkCodeInput :: "string \<Rightarrow> string \<Rightarrow> nat \<Rightarrow> bool" where
  \<comment> \<open>\<^verbatim>\<open>/^[a-zA-Z0-9\s\-_]*$/.test(value)\<close>: every code unit is in the class.\<close>
  "validateWorkCodeInput field value maxLength =
     (if length value > maxLength then False
      else list_all patternChar value)"

definition validateStatus :: "jsval \<Rightarrow> bool" where
  \<comment> \<open>\<^verbatim>\<open>&&\<close> stops at \<^verbatim>\<open>Number.isInteger\<close>, which is false of every value that is not
      a number, so the comparisons are made on numbers only.\<close>
  "validateStatus status =
     (Number_isInteger status \<and>
      (case status of
         JNum n \<Rightarrow> jsnum_le (Finite 0) n \<and> jsnum_le n (Finite 3)
       | _ \<Rightarrow> False))"

section \<open>ConfigurationManager: the default field configuration\<close>

record FieldConfig =
  enabled :: bool
  readonly :: bool
  visible :: bool
  label :: string
  hint :: string
  required :: bool

text \<open>
  A \<^verbatim>\<open>Record<string, FieldConfig>\<close> is modelled by the list \<^verbatim>\<open>Object.entries\<close> returns for
  it: its keys with their values, in the object's entry order. The keys of an object are
  distinct.
\<close>

type_synonym fieldConfigs = "(string \<times> FieldConfig) list"

definition defaultFields :: fieldConfigs where
  \<comment> \<open>\<^verbatim>\<open>getDefaultPageConfig().fields\<close>\<close>
  "defaultFields =
     [(''prefix'', \<lparr>enabled = True, readonly = False, visible = True, label = ''Prefix'',
         hint = ''Maximum 10 characters'', required = False\<rparr>),
      (''suffix'', \<lparr>enabled = True, readonly = False, visible = True, label = ''Suffix'',
         hint = ''Maximum 10 characters'', required = False\<rparr>),
      (''short_work_code'', \<lparr>enabled = True, readonly = False, visible = True,
         label = ''Short Work Code'', hint = ''Required, maximum 10 characters'',
         required = True\<rparr>),
      (''long_work_code'', \<lparr>enabled = True, readonly = False, visible = True,
         label = ''Long Work Code'', hint = ''Required, maximum 50 characters'',
         required = True\<rparr>),
      (''description'', \<lparr>enabled = True, readonly = False, visible = True,
         label = ''Description'', hint = ''Optional detailed description'',
         required = False\<rparr>),
      (''status'', \<lparr>enabled = True, readonly = False, visible = True, label = ''Status'',
         hint = [], required = False\<rparr>)]"

section \<open>WorkCodeService\<close>

definition getStatusLabel :: "jsval \<Rightarrow> string" where
  \<comment> \<open>\<^verbatim>\<open>labels[status] || 'Unknown'\<close>: the table has the keys 0 to 3, which a number
      reaches when it is one of them and a string when it is the decimal of one of them;
      every label of the table is a non-empty string, so only a missing key gives
      \<^verbatim>\<open>'Unknown'\<close>.\<close>
  "getStatusLabel status =
     (if status = JNum (Finite 0) \<or> status = JStr ''0'' then ''Inactive''
      else if status = JNum (Finite 1) \<or> status = JStr ''1'' then ''Active''
      else if status = JNum (Finite 2) \<or> status = JStr ''2'' then ''Pending''
      else if status = JNum (Finite 3) \<or> status = JStr ''3'' then ''Archived''
      else ''Unknown'')"

fun decimalDigits :: "nat \<Rightarrow> string" where
  "decimalDigits n =
     (if n < 10 then [char_of (48 + n)]
      else decimalDigits (n div 10) @ [char_of (48 + n mod 10)])"

definition Number_toString :: "(rat \<Rightarrow> string) \<Rightarrow> jsnum \<Rightarrow> string" where
  \<comment> \<open>The string of a number. An integer of magnitude at most \<^verbatim>\<open>2 ^ 53\<close> is printed with
      its decimal digits, as JavaScript prints it. Beyond that range, and for the numbers
      that are not integers, JavaScript prints the shortest digits that read back as the
      same number (\<^verbatim>\<open>String(2 ** 60)\<close> ends in \<^verbatim>\<open>847000\<close>) or an exponent form; these
      digits are not computed here, and \<^verbatim>\<open>other\<close> stands for them.\<close>
  "Number_toString other n =
     (case n of
        NaN \<Rightarrow> ''NaN''
      | PosInfinity \<Rightarrow> ''Infinity''
      | NegInfinity \<Rightarrow> ''-Infinity''
      | Finite q \<Rightarrow>
          if of_int \<lfloor>q\<rfloor> = q \<and> \<bar>q\<bar> \<le> 2 ^ 53 then
            (if q < 0 then ''-'' @ decimalDigits (nat (- \<lfloor>q\<rfloor>))
             else decimalDigits (nat \<lfloor>q\<rfloor>))
          else other q)"

definition String_js :: "(rat \<Rightarrow> string) \<Rightarrow> jsval \<Rightarrow> string" where
  \<comment> \<open>\<^verbatim>\<open>String(value)\<close>\<close>
  "String_js other v =
     (case v of
        JUndefined \<Rightarrow> ''undefined''
      | JNull \<Rightarrow> ''null''
      | JNum n \<Rightarrow> Number_toString other n
      | JStr s \<Rightarrow> s)"

definition fieldMatches :: "(rat \<Rightarrow> string) \<Rightarrow> string \<Rightarrow> jsobject \<Rightarrow> string \<Rightarrow> bool" where
  \<comment> \<open>The function given to \<^verbatim>\<open>visibleFields.some\<close>, for the record \<^verbatim>\<open>code\<close>.\<close>
  "fieldMatches other query code fieldName =
     (let value = code fieldName
      in if value = JNull \<or> value = JUndefined then False
         else if fieldName = ''status'' then
           includes_js (toLowerCase (getStatusLabel value)) query
         else includes_js (toLowerCase (String_js other value)) query)"

definition filterWorkCodes ::
  "(rat \<Rightarrow> string) \<Rightarrow> jsobject list \<Rightarrow> string \<Rightarrow> string list \<Rightarrow> jsobject list" where
  "filterWorkCodes other workCodes searchQuery visibleFields =
     (if trim searchQuery = [] then workCodes
      else
        let query = sanitizeInput (Some (toLowerCase searchQuery))
        in filter (\<lambda>code. list_ex (fieldMatches other query code) visibleFields) workCodes)"

text \<open>
  \<^verbatim>\<open>validateRequiredFields\<close> reads the form by key, \<^verbatim>\<open>formData[field]\<close>, for the keys of
  the configuration, so the form is modelled as an object. Its result
  \<^verbatim>\<open>{ isValid: boolean; missingField?: string }\<close> is a record with an optional label.
\<close>

record ValidationResult =
  isValid :: bool
  missingField :: "string option"

definition requiredFields :: "fieldConfigs \<Rightarrow> string list" where
  "requiredFields fieldConfigs =
     map fst (filter (\<lambda>(_, config). required config \<and> visible config) fieldConfigs)"

fun checkRequired :: "jsobject \<Rightarrow> fieldConfigs \<Rightarrow> string list \<Rightarrow> error + ValidationResult" where
  \<comment> \<open>The \<^verbatim>\<open>for\<close> loop over \<^verbatim>\<open>requiredFields\<close>. Reading \<^verbatim>\<open>.label\<close> of a key the
      configuration does not have would throw a \<^verbatim>\<open>TypeError\<close>.\<close>
  "checkRequired formData fieldConfigs [] = Inr \<lparr>isValid = True, missingField = None\<rparr>"
| "checkRequired formData fieldConfigs (field # rest) =
     (if falsy (formData field) then
        (case map_of fieldConfigs field of
           None \<Rightarrow> Inl TypeError
         | Some config \<Rightarrow> Inr \<lparr>isValid = False, missingField = Some (label config)\<rparr>)
      else checkRequired formData fieldConfigs rest)"

definition validateRequiredFields :: "jsobject \<Rightarrow> fieldConfigs \<Rightarrow> error + ValidationResult" where
  "validateRequiredFields formData fieldConfigs =
     checkRequired formData fieldConfigs (requiredFields fieldConfigs)"

section \<open>WorkCodeApiClient: validation before a request\<close>

text \<open>
  \<^verbatim>\<open>validateWorkCodeData\<close> reads the properties of its argument by name and takes the
  length of each text, so its argument is modelled with the types the interface
  \<^verbatim>\<open>Omit<WorkCode, 'work_code_id'>\<close> declares. The fields \<^verbatim>\<open>prefix\<close> and \<^verbatim>\<open>suffix\<close>
  carry the suffix \<^verbatim>\<open>_wc\<close>, as the list library owns both names.
\<close>

record WorkCodeData =
  prefix_wc :: string
  suffix_wc :: string
  short_work_code :: string
  long_work_code :: string
  description :: string
  status :: jsnum


section \<open>The properties, in the words of the specification\<close>

definition noLeadingWS :: "string \<Rightarrow> bool" where
  "noLeadingWS s = (case s of [] \<Rightarrow> True | c # _ \<Rightarrow> \<not> isWhiteSpace c)"

definition noTrailingWS :: "string \<Rightarrow> bool" where
  "noTrailingWS s = noLeadingWS (rev s)"

definition trimEnd :: "string \<Rightarrow> string" where
  \<comment> \<open>The string without its trailing whitespace.\<close>
  "trimEnd s = rev (dropWhile isWhiteSpace (rev s))"

definition spec_wellFormedChar :: "char \<Rightarrow> bool" where
  \<comment> \<open>"alphanumeric, a hyphen, an underscore, or a space"\<close>
  "spec_wellFormedChar c =
     (isAsciiLetter c \<or> isAsciiDigit c \<or> c = CHR ''-'' \<or> c = CHR ''_'' \<or> c = CHR '' '')"

definition spec_stripped :: "string \<Rightarrow> string" where
  \<comment> \<open>"Strips angle-bracket characters."\<close>
  "spec_stripped s = [c \<leftarrow> s. c \<notin> {CHR ''<'', CHR ''>''}]"

definition spec_trimmed :: "string \<Rightarrow> string" where
  \<comment> \<open>"Trims leading/trailing whitespace": what is left of the string between its
      leading run and its trailing run of whitespace.\<close>
  "spec_trimmed s =
     (let lead = length (takeWhile isWhiteSpace s);
          trail = length (takeWhile isWhiteSpace (rev s))
      in take (length s - lead - trail) (drop lead s))"

definition spec_sanitized :: "string \<Rightarrow> string" where
  \<comment> \<open>"Strips angle-bracket characters, trims leading/trailing whitespace, truncates to
      1000 characters."\<close>
  "spec_sanitized s = take 1000 (spec_trimmed (spec_stripped s))"

definition spec_fieldText :: "(rat \<Rightarrow> string) \<Rightarrow> jsobject \<Rightarrow> string \<Rightarrow> string" where
  \<comment> \<open>A field "stringified, with the status field mapped through getStatusLabel instead
      of its numeric value, and lower-cased": a text is its own string and a number is
      printed; a null or absent value has no text.\<close>
  "spec_fieldText other code fieldName =
     toLowerCase
       (if fieldName = ''status'' then getStatusLabel (code fieldName)
        else (case code fieldName of
                JStr s \<Rightarrow> s
              | JNum n \<Rightarrow> Number_toString other n
              | _ \<Rightarrow> []))"

definition spec_selected :: "(rat \<Rightarrow> string) \<Rightarrow> string \<Rightarrow> string list \<Rightarrow> jsobject \<Rightarrow> bool" where
  \<comment> \<open>"At least one visible field contains the query as a substring", null and absent
      values never matching.\<close>
  "spec_selected other query visibleFields code =
     (\<exists>fieldName \<in> set visibleFields.
        code fieldName \<noteq> JNull \<and> code fieldName \<noteq> JUndefined \<and>
        sublist query (spec_fieldText other code fieldName))"

definition firstMissing :: "jsobject \<Rightarrow> fieldConfigs \<Rightarrow> (string \<times> FieldConfig) option" where
  \<comment> \<open>The first entry, in entry order, that is required and visible and whose value in
      the form is falsy.\<close>
  "firstMissing formData fieldConfigs =
     find (\<lambda>(key, config). required config \<and> visible config \<and> falsy (formData key))
       fieldConfigs"

text \<open>The two records of the search scenario; their other properties are absent.\<close>

definition workCode1 :: jsobject where
  "workCode1 = emptyObject
     (''work_code_id'' := JNum (Finite 1), ''short_work_code'' := JStr ''AB1'',
      ''status'' := JNum (Finite 1))"

definition workCode2 :: jsobject where
  "workCode2 = emptyObject
     (''work_code_id'' := JNum (Finite 2), ''short_work_code'' := JStr ''XY9'',
      ''status'' := JNum (Finite 0))"

section \<open>Facts about trimming and bracket removal\<close>

lemma sanitizeInput_Some:
  "sanitizeInput (Some s) = take 1000 (trim (removeAngleBrackets s))"
  by (simp add: sanitizeInput_def substring_def trim_def removeAngleBrackets_def)

lemma noLeadingWS_dropWhile: "noLeadingWS (dropWhile isWhiteSpace s)"
  by (induction s) (simp_all add: noLeadingWS_def)

lemma dropWhile_noLeadingWS: "noLeadingWS s \<Longrightarrow> dropWhile isWhiteSpace s = s"
  by (cases s) (simp_all add: noLeadingWS_def)

lemma noLeadingWS_iff: "noLeadingWS s \<longleftrightarrow> dropWhile isWhiteSpace s = s"
  using noLeadingWS_dropWhile [of s] dropWhile_noLeadingWS [of s] by auto

lemma trim_trimEnd: "trim s = trimEnd (dropWhile isWhiteSpace s)"
  by (simp add: trim_def trimEnd_def)

lemma trimEnd_Cons: "\<not> isWhiteSpace c \<Longrightarrow> trimEnd (c # cs) = c # trimEnd cs"
  by (simp add: trimEnd_def dropWhile_append3)

lemma noLeadingWS_trimEnd: "noLeadingWS s \<Longrightarrow> noLeadingWS (trimEnd s)"
proof (cases s)
  case Nil
  then show ?thesis by (simp add: trimEnd_def noLeadingWS_def)
next
  case (Cons c cs)
  assume "noLeadingWS s"
  with Cons have "\<not> isWhiteSpace c" by (simp add: noLeadingWS_def)
  with Cons show ?thesis by (simp add: trimEnd_Cons noLeadingWS_def)
qed

lemma noTrailingWS_trimEnd: "noTrailingWS (trimEnd s)"
  by (simp add: noTrailingWS_def trimEnd_def noLeadingWS_dropWhile)

lemma trimEnd_id_iff: "trimEnd s = s \<longleftrightarrow> noTrailingWS s"
proof -
  have "trimEnd s = s \<longleftrightarrow> dropWhile isWhiteSpace (rev s) = rev s"
    unfolding trimEnd_def by (metis rev_rev_ident)
  then show ?thesis by (simp add: noTrailingWS_def noLeadingWS_iff)
qed

lemma noLeadingWS_trim: "noLeadingWS (trim s)"
  by (simp add: trim_trimEnd noLeadingWS_trimEnd noLeadingWS_dropWhile)

lemma noTrailingWS_trim: "noTrailingWS (trim s)"
  by (simp add: trim_trimEnd noTrailingWS_trimEnd)

lemma trim_noLeadingWS: "noLeadingWS s \<Longrightarrow> trim s = trimEnd s"
  by (simp add: trim_trimEnd dropWhile_noLeadingWS)

lemma trim_id: "noLeadingWS s \<Longrightarrow> noTrailingWS s \<Longrightarrow> trim s = s"
  by (simp add: trim_noLeadingWS trimEnd_id_iff)

lemma noLeadingWS_take: "noLeadingWS s \<Longrightarrow> noLeadingWS (take n s)"
  by (cases s; cases n) (simp_all add: noLeadingWS_def)

lemma noLeadingWS_replicate:
  "0 < n \<Longrightarrow> \<not> isWhiteSpace c \<Longrightarrow> noLeadingWS (replicate n c @ t)"
  by (cases n) (simp_all add: noLeadingWS_def)

lemma length_trimEnd: "length (trimEnd s) \<le> length s"
  by (simp add: trimEnd_def length_dropWhile_le [of isWhiteSpace "rev s", simplified])

lemma set_trimEnd: "set (trimEnd s) \<subseteq> set s"
  using set_dropWhileD [of _ isWhiteSpace "rev s"] by (auto simp: trimEnd_def)

lemma set_trim: "set (trim s) \<subseteq> set s"
  using set_trimEnd [of "dropWhile isWhiteSpace s"] set_dropWhileD [of _ isWhiteSpace s]
  by (auto simp: trim_trimEnd)

lemma set_removeAngleBrackets:
  "set (removeAngleBrackets s) = set s - {CHR ''<'', CHR ''>''}"
  by (auto simp: removeAngleBrackets_def)

lemma removeAngleBrackets_id:
  "CHR ''<'' \<notin> set s \<Longrightarrow> CHR ''>'' \<notin> set s \<Longrightarrow> removeAngleBrackets s = s"
  by (simp add: removeAngleBrackets_def filter_id_conv) metis

lemma set_sanitizeInput:
  "set (sanitizeInput (Some s)) \<subseteq> set s - {CHR ''<'', CHR ''>''}"
proof -
  have "set (sanitizeInput (Some s)) \<subseteq> set (trim (removeAngleBrackets s))"
    by (simp add: sanitizeInput_Some set_take_subset)
  also have "\<dots> \<subseteq> set (removeAngleBrackets s)" by (rule set_trim)
  finally show ?thesis by (simp add: set_removeAngleBrackets)
qed

lemma noLeadingWS_sanitizeInput: "noLeadingWS (sanitizeInput (Some s))"
  by (simp add: sanitizeInput_Some noLeadingWS_take noLeadingWS_trim)

lemma sanitizeInput_again:
  "sanitizeInput (Some (sanitizeInput (Some s))) = trimEnd (sanitizeInput (Some s))"
proof -
  let ?r = "sanitizeInput (Some s)"
  have nb: "removeAngleBrackets ?r = ?r"
    using set_sanitizeInput [of s] by (intro removeAngleBrackets_id) auto
  have t: "trim ?r = trimEnd ?r"
    using noLeadingWS_sanitizeInput by (rule trim_noLeadingWS)
  have "length (trimEnd ?r) \<le> length ?r" by (rule length_trimEnd)
  also have "\<dots> \<le> 1000" by (simp add: sanitizeInput_Some)
  finally have "take 1000 (trimEnd ?r) = trimEnd ?r" by simp
  with nb t show ?thesis by (simp add: sanitizeInput_Some [of ?r])
qed

lemma sanitizeInput_cut:
  "sanitizeInput (Some (replicate 999 (CHR ''a'') @ '' b'')) = replicate 999 (CHR ''a'') @ '' ''"
proof -
  let ?s = "replicate 999 (CHR ''a'') @ '' b''"
  have "removeAngleBrackets ?s = ?s"
    by (rule removeAngleBrackets_id) auto
  moreover have "noLeadingWS ?s"
    by (simp add: noLeadingWS_replicate isWhiteSpace_def)
  moreover have "noTrailingWS ?s"
    by (simp add: noTrailingWS_def noLeadingWS_def isWhiteSpace_def)
  ultimately have "sanitizeInput (Some ?s) = take 1000 ?s"
    by (simp add: sanitizeInput_Some trim_id)
  then show ?thesis by simp
qed

section \<open>SecurityValidator.validateStatus\<close>

text \<open>
  C8. \<^verbatim>\<open>validateStatus(s)\<close> is true exactly when \<^verbatim>\<open>s\<close> is an integer of the range 0 to 3;
  it is false for 4, for -1 and for 1.5.
\<close>

theorem validateStatus_integer_range:
  "(validateStatus s \<longleftrightarrow> (\<exists>k::int. 0 \<le> k \<and> k \<le> 3 \<and> s = JNum (Finite (of_int k))))
   \<and> \<not> validateStatus (JNum (Finite 4))
   \<and> \<not> validateStatus (JNum (Finite (- 1)))
   \<and> \<not> validateStatus (JNum (Finite (3 / 2)))"
proof -
  have iff: "validateStatus s \<longleftrightarrow> (\<exists>k::int. 0 \<le> k \<and> k \<le> 3 \<and> s = JNum (Finite (of_int k)))"
  proof (cases s)
    case (JNum n)
    show ?thesis
    proof (cases n)
      case (Finite q)
      have "(of_int \<lfloor>q\<rfloor> = q \<and> 0 \<le> q \<and> q \<le> 3) \<longleftrightarrow> (\<exists>k::int. 0 \<le> k \<and> k \<le> 3 \<and> q = of_int k)"
      proof
        assume a: "of_int \<lfloor>q\<rfloor> = q \<and> 0 \<le> q \<and> q \<le> 3"
        then have "0 \<le> \<lfloor>q\<rfloor> \<and> \<lfloor>q\<rfloor> \<le> 3" by (simp add: le_floor_iff floor_le_iff)
        with a show "\<exists>k::int. 0 \<le> k \<and> k \<le> 3 \<and> q = of_int k" by metis
      next
        assume "\<exists>k::int. 0 \<le> k \<and> k \<le> 3 \<and> q = of_int k"
        then obtain k :: int where "0 \<le> k" "k \<le> 3" "q = of_int k" by blast
        then show "of_int \<lfloor>q\<rfloor> = q \<and> 0 \<le> q \<and> q \<le> 3" by simp
      qed
      with JNum Finite show ?thesis by (simp add: validateStatus_def Number_isInteger_def)
    qed (simp_all add: JNum validateStatus_def Number_isInteger_def)
  qed (simp_all add: validateStatus_def Number_isInteger_def)
  have "\<not> validateStatus (JNum (Finite 4))"
    by (simp add: validateStatus_def Number_isInteger_def)
  moreover have "\<not> validateStatus (JNum (Finite (- 1)))"
    by (simp add: validateStatus_def Number_isInteger_def)
  moreover have "\<not> validateStatus (JNum (Finite (3 / 2)))"
    by code_simp
  ultimately show ?thesis using iff by blast
qed

theorem validateStatus_integer_range_witness:
  "validateStatus (JNum (Finite 2)) \<and> \<not> validateStatus (JStr ''1'')"
proof -
  have "\<exists>k::int. 0 \<le> k \<and> k \<le> 3 \<and> JNum (Finite 2) = JNum (Finite (of_int k))"
    by (rule exI [of _ 2]) simp
  then have "validateStatus (JNum (Finite 2))"
    using validateStatus_integer_range [of "JNum (Finite 2)"] by blast
  moreover have "\<not> validateStatus (JStr ''1'')"
    using validateStatus_integer_range [of "JStr ''1''"] by simp
  ultimately show ?thesis by blast
qed

section \<open>SecurityValidator.validateWorkCodeInput\<close>

lemma validateWorkCodeInput_iff:
  "validateWorkCodeInput field value maxLength \<longleftrightarrow>
     length value \<le> maxLength \<and>
     (\<forall>c \<in> set value. isAsciiLetter c \<or> isAsciiDigit c \<or> c = CHR ''-'' \<or> c = CHR ''_'' \<or>
        isWhiteSpace c)"
  by (auto simp: validateWorkCodeInput_def patternChar_def list_all_iff)

lemma spec_wellFormedChar_patternChar: "spec_wellFormedChar c \<Longrightarrow> patternChar c"
  by (auto simp: spec_wellFormedChar_def patternChar_def isWhiteSpace_def)

text \<open>
  C4. \<^verbatim>\<open>validateWorkCodeInput(field, value, maxLength)\<close> is to return false for a value
  longer than \<^verbatim>\<open>maxLength\<close> and otherwise true exactly when every character is
  alphanumeric, a hyphen, an underscore or a space, as the comment above the pattern says
  ("Only allow alphanumeric, hyphens, underscores, and spaces"). The pattern has the class
  \<^verbatim>\<open>\s\<close> where the space is meant, and \<^verbatim>\<open>\s\<close> is every whitespace character: the value
  of a letter, a tab and a letter is within the length and is accepted, although the tab
  is none of the characters allowed.
\<close>

theorem validateWorkCodeInput_accepts_tab:
  "length [CHR ''A'', CHR 0x09, CHR ''B''] \<le> 10
   \<and> validateWorkCodeInput ''short_work_code'' [CHR ''A'', CHR 0x09, CHR ''B''] 10
   \<and> \<not> list_all spec_wellFormedChar [CHR ''A'', CHR 0x09, CHR ''B'']"
  by (simp add: validateWorkCodeInput_def patternChar_def spec_wellFormedChar_def
      isAsciiLetter_def isAsciiDigit_def isWhiteSpace_def)

text \<open>
  What the code accepts: a value within the length whose characters are ASCII letters or
  digits, hyphens, underscores or whitespace characters (tab, line feed, vertical tab,
  form feed, carriage return, space, no-break space). Every value of alphanumerics,
  hyphens, underscores and spaces within the length is among them; the empty string is
  accepted, \<^verbatim>\<open>"ABC-1_2"\<close> is accepted for 10, and \<^verbatim>\<open>"ABC<1>"\<close> and \<^verbatim>\<open>"toolong1234"\<close> are
  rejected for 10.
\<close>

theorem validateWorkCodeInput_characterised:
  "(validateWorkCodeInput field value maxLength \<longleftrightarrow>
      length value \<le> maxLength \<and>
      (\<forall>c \<in> set value. isAsciiLetter c \<or> isAsciiDigit c \<or> c = CHR ''-'' \<or> c = CHR ''_'' \<or>
         c \<in> {CHR 0x09, CHR 0x0A, CHR 0x0B, CHR 0x0C, CHR 0x0D, CHR 0x20, CHR 0xA0}))
   \<and> (length value \<le> maxLength \<and> list_all spec_wellFormedChar value
        \<longrightarrow> validateWorkCodeInput field value maxLength)
   \<and> validateWorkCodeInput field [] maxLength
   \<and> validateWorkCodeInput field ''ABC-1_2'' 10
   \<and> \<not> validateWorkCodeInput field ''ABC<1>'' 10
   \<and> \<not> validateWorkCodeInput field ''toolong1234'' 10"
proof -
  have "validateWorkCodeInput field value maxLength \<longleftrightarrow>
      length value \<le> maxLength \<and>
      (\<forall>c \<in> set value. isAsciiLetter c \<or> isAsciiDigit c \<or> c = CHR ''-'' \<or> c = CHR ''_'' \<or>
         c \<in> {CHR 0x09, CHR 0x0A, CHR 0x0B, CHR 0x0C, CHR 0x0D, CHR 0x20, CHR 0xA0})"
    unfolding validateWorkCodeInput_iff by (simp add: isWhiteSpace_def)
  moreover have "length value \<le> maxLength \<and> list_all spec_wellFormedChar value
        \<longrightarrow> validateWorkCodeInput field value maxLength"
    using spec_wellFormedChar_patternChar
    by (auto simp: validateWorkCodeInput_def list_all_iff)
  moreover have "validateWorkCodeInput field [] maxLength"
    by (simp add: validateWorkCodeInput_def)
  moreover have "validateWorkCodeInput field ''ABC-1_2'' 10"
    by (simp add: validateWorkCodeInput_def patternChar_def isAsciiLetter_def
        isAsciiDigit_def isWhiteSpace_def)
  moreover have "\<not> validateWorkCodeInput field ''ABC<1>'' 10"
    by (simp add: validateWorkCodeInput_def patternChar_def isAsciiLetter_def
        isAsciiDigit_def isWhiteSpace_def)
  moreover have "\<not> validateWorkCodeInput field ''toolong1234'' 10"
    by (simp add: validateWorkCodeInput_def)
  ultimately show ?thesis by blast
qed

theorem validateWorkCodeInput_characterised_witness:
  "validateWorkCodeInput ''prefix'' ''A b-9_'' 10 \<and> \<not> validateWorkCodeInput ''prefix'' ''a.b'' 10"
proof -
  have "length ''A b-9_'' \<le> 10 \<and> list_all spec_wellFormedChar ''A b-9_''"
    by (simp add: spec_wellFormedChar_def isAsciiLetter_def isAsciiDigit_def)
  then have "validateWorkCodeInput ''prefix'' ''A b-9_'' 10"
    using validateWorkCodeInput_characterised [of "''prefix''" "''A b-9_''" 10] by blast
  moreover have "\<not> validateWorkCodeInput ''prefix'' ''a.b'' 10"
    using validateWorkCodeInput_characterised [of "''prefix''" "''a.b''" 10]
    by (simp add: isAsciiLetter_def isAsciiDigit_def)
  ultimately show ?thesis by blast
qed

section \<open>SecurityValidator.sanitizeInput\<close>

text \<open>
  C5, as stated, fails: the input is trimmed before it is cut to 1000 characters, so a cut
  that falls just after a space leaves that space at the end of the result. The input is
  999 letters, a space and one more letter.
\<close>

theorem sanitizeInput_trailing_space_counterexample:
  "\<not> noTrailingWS (sanitizeInput (Some (replicate 999 (CHR ''a'') @ '' b'')))"
  by (simp add: sanitizeInput_cut noTrailingWS_def noLeadingWS_def isWhiteSpace_def)

text \<open>
  C5, amended. For every input, \<^verbatim>\<open>sanitizeInput\<close> returns a string without \<^verbatim>\<open><\<close> and
  without \<^verbatim>\<open>>\<close>, of length at most 1000 and without leading whitespace; the result has
  no trailing whitespace either whenever the input, once its angle brackets are removed
  and it is trimmed, is at most 1000 characters long. An empty or absent input gives the
  empty string. The function is total: it has no failing branch.
\<close>

theorem sanitizeInput_properties:
  "CHR ''<'' \<notin> set (sanitizeInput input)
   \<and> CHR ''>'' \<notin> set (sanitizeInput input)
   \<and> length (sanitizeInput input) \<le> 1000
   \<and> noLeadingWS (sanitizeInput input)
   \<and> (length (trim (removeAngleBrackets s)) \<le> 1000 \<longrightarrow> noTrailingWS (sanitizeInput (Some s)))
   \<and> sanitizeInput None = []
   \<and> sanitizeInput (Some []) = []"
proof -
  have none: "sanitizeInput None = []" by (simp add: sanitizeInput_def)
  have "CHR ''<'' \<notin> set (sanitizeInput input) \<and> CHR ''>'' \<notin> set (sanitizeInput input)"
  proof (cases input)
    case None
    then show ?thesis by (simp add: none)
  next
    case (Some t)
    then show ?thesis using set_sanitizeInput [of t] by auto
  qed
  moreover have "length (sanitizeInput input) \<le> 1000"
    by (cases input) (simp_all add: none sanitizeInput_Some)
  moreover have "noLeadingWS (sanitizeInput input)"
    by (cases input) (simp_all add: none noLeadingWS_sanitizeInput, simp add: noLeadingWS_def)
  moreover have "length (trim (removeAngleBrackets s)) \<le> 1000
      \<longrightarrow> noTrailingWS (sanitizeInput (Some s))"
    by (simp add: sanitizeInput_Some noTrailingWS_trim)
  moreover have "sanitizeInput (Some []) = []" by (simp add: sanitizeInput_def)
  ultimately show ?thesis using none by blast
qed

theorem sanitizeInput_properties_witness:
  "length (trim (removeAngleBrackets '' <b>x y</b>  '')) \<le> 1000
   \<and> sanitizeInput (Some '' <b>x y</b>  '') = ''bx y/b''
   \<and> noTrailingWS (sanitizeInput (Some '' <b>x y</b>  ''))"
proof -
  have v: "sanitizeInput (Some '' <b>x y</b>  '') = ''bx y/b''" by code_simp
  have l: "length (trim (removeAngleBrackets '' <b>x y</b>  '')) \<le> 1000" by code_simp
  with v show ?thesis
    using sanitizeInput_properties [of "Some '' <b>x y</b>  ''" "'' <b>x y</b>  ''"] by simp
qed

text \<open>
  C6, as stated, fails on the same input: the first pass leaves 999 letters and a space,
  and the second pass trims the space away.
\<close>

theorem sanitizeInput_idempotent_counterexample:
  "sanitizeInput (Some (sanitizeInput (Some (replicate 999 (CHR ''a'') @ '' b''))))
     \<noteq> sanitizeInput (Some (replicate 999 (CHR ''a'') @ '' b''))"
proof -
  let ?s = "replicate 999 (CHR ''a'') @ '' b''"
  let ?r = "replicate 999 (CHR ''a'') @ '' ''"
  have "\<not> noTrailingWS ?r"
    by (simp add: noTrailingWS_def noLeadingWS_def isWhiteSpace_def)
  then have ne: "trimEnd ?r \<noteq> ?r"
    by (simp only: trimEnd_id_iff not_False_eq_True)
  have "sanitizeInput (Some ?r) = trimEnd ?r"
    using sanitizeInput_again [of ?s] by (simp only: sanitizeInput_cut)
  with ne have "sanitizeInput (Some ?r) \<noteq> ?r" by (simp only: not_False_eq_True)
  then show ?thesis by (simp only: sanitizeInput_cut not_False_eq_True)
qed

text \<open>
  C6, amended. A second pass of \<^verbatim>\<open>sanitizeInput\<close> returns the result of the first pass
  without its trailing whitespace. So \<^verbatim>\<open>sanitize(sanitize(s))\<close> equals \<^verbatim>\<open>sanitize(s)\<close>
  exactly when \<^verbatim>\<open>sanitize(s)\<close> does not end in whitespace, which is the case whenever
  \<^verbatim>\<open>s\<close>, once its angle brackets are removed and it is trimmed, is at most 1000
  characters long.
\<close>

theorem sanitizeInput_second_pass:
  "sanitizeInput (Some (sanitizeInput (Some s))) = trimEnd (sanitizeInput (Some s))
   \<and> (sanitizeInput (Some (sanitizeInput (Some s))) = sanitizeInput (Some s)
        \<longleftrightarrow> noTrailingWS (sanitizeInput (Some s)))
   \<and> (length (trim (removeAngleBrackets s)) \<le> 1000
        \<longrightarrow> sanitizeInput (Some (sanitizeInput (Some s))) = sanitizeInput (Some s))"
proof -
  have short: "length (trim (removeAngleBrackets s)) \<le> 1000
      \<Longrightarrow> noTrailingWS (sanitizeInput (Some s))"
    by (simp add: sanitizeInput_Some noTrailingWS_trim)
  show ?thesis
    using short by (simp add: sanitizeInput_again trimEnd_id_iff)
qed

theorem sanitizeInput_second_pass_witness:
  "length (trim (removeAngleBrackets '' <b>x y</b>  '')) \<le> 1000
   \<and> sanitizeInput (Some (sanitizeInput (Some '' <b>x y</b>  '')))
       = sanitizeInput (Some '' <b>x y</b>  '')"
proof -
  have l: "length (trim (removeAngleBrackets '' <b>x y</b>  '')) \<le> 1000" by code_simp
  then show ?thesis
    using sanitizeInput_second_pass [of "'' <b>x y</b>  ''"] by blast
qed

section \<open>Facts about the search\<close>

lemma startsWith_prefix: "startsWith s q \<longleftrightarrow> prefix q s"
  by (induction s q rule: startsWith.induct) auto

lemma includes_js_sublist: "includes_js s q \<longleftrightarrow> sublist q s"
  by (induction s) (simp_all add: startsWith_prefix sublist_Cons_right)

lemma includes_js_empty: "includes_js s []"
  by (simp add: includes_js_sublist)

lemma fieldMatches_empty_query:
  "fieldMatches other [] code fieldName \<longleftrightarrow>
     code fieldName \<noteq> JNull \<and> code fieldName \<noteq> JUndefined"
  by (simp add: fieldMatches_def includes_js_empty Let_def)

lemma fieldMatches_spec:
  "fieldMatches other query code fieldName \<longleftrightarrow>
     code fieldName \<noteq> JNull \<and> code fieldName \<noteq> JUndefined \<and>
     sublist query (spec_fieldText other code fieldName)"
  by (cases "code fieldName")
     (auto simp: fieldMatches_def spec_fieldText_def String_js_def includes_js_sublist Let_def)

lemma some_fieldMatches_spec:
  "list_ex (fieldMatches other query code) visibleFields
     \<longleftrightarrow> spec_selected other query visibleFields code"
  by (simp add: list_ex_iff spec_selected_def fieldMatches_spec)

lemma filterWorkCodes_nonempty:
  "trim searchQuery \<noteq> [] \<Longrightarrow>
   filterWorkCodes other workCodes searchQuery visibleFields =
     filter (spec_selected other (sanitizeInput (Some (toLowerCase searchQuery))) visibleFields)
       workCodes"
  by (simp add: filterWorkCodes_def Let_def some_fieldMatches_spec)

lemma removeAngleBrackets_spec: "removeAngleBrackets s = spec_stripped s"
  by (simp add: removeAngleBrackets_def spec_stripped_def)

lemma trim_spec: "trim s = spec_trimmed s"
proof -
  let ?t = "dropWhile isWhiteSpace s"
  let ?lead = "length (takeWhile isWhiteSpace s)"
  have t: "?t = drop ?lead s" by (rule dropWhile_eq_drop)
  have len: "length ?t = length s - ?lead" by (simp add: t)
  have tr: "trim s = take (length ?t - length (takeWhile isWhiteSpace (rev ?t))) ?t"
  proof -
    have "dropWhile isWhiteSpace (rev ?t)
        = drop (length (takeWhile isWhiteSpace (rev ?t))) (rev ?t)"
      by (rule dropWhile_eq_drop)
    then have "rev (dropWhile isWhiteSpace (rev ?t))
        = take (length ?t - length (takeWhile isWhiteSpace (rev ?t))) ?t"
      by (simp only: rev_drop rev_rev_ident length_rev)
    then show ?thesis by (simp only: trim_def)
  qed
  show ?thesis
  proof (cases "?t = []")
    case True
    with tr have "trim s = []" by simp
    moreover from True t have "drop ?lead s = []" by simp
    ultimately show ?thesis by (simp add: spec_trimmed_def Let_def)
  next
    case False
    then have nw: "\<not> isWhiteSpace (hd ?t)" by (rule hd_dropWhile)
    from False have mem: "hd ?t \<in> set (rev ?t)" by simp
    have split: "rev s = rev ?t @ rev (takeWhile isWhiteSpace s)"
      by (simp only: rev_append [symmetric] takeWhile_dropWhile_id)
    have "takeWhile isWhiteSpace (rev ?t @ rev (takeWhile isWhiteSpace s))
        = takeWhile isWhiteSpace (rev ?t)"
      using mem nw by (rule takeWhile_append1)
    with split have "takeWhile isWhiteSpace (rev s) = takeWhile isWhiteSpace (rev ?t)"
      by (simp only:)
    then have "trim s = take (length s - ?lead - length (takeWhile isWhiteSpace (rev s)))
        (drop ?lead s)"
      using tr len t by simp
    then show ?thesis by (simp add: spec_trimmed_def Let_def)
  qed
qed

lemma sanitizeInput_spec: "sanitizeInput (Some s) = spec_sanitized s"
  by (simp add: sanitizeInput_Some spec_sanitized_def removeAngleBrackets_spec trim_spec)

lemma trim_nonempty_examples:
  "trim ''active'' \<noteq> []" "trim ''ab'' \<noteq> []" "trim ''<>'' \<noteq> []" "trim ''  '' = []"
  "trim '' <A>b  '' \<noteq> []" "trim ''<2>'' \<noteq> []"
  by code_simp+

lemma spec_query_examples:
  "spec_sanitized (toLowerCase '' <A>b  '') = ''ab''"
  "spec_sanitized (toLowerCase ''<2>'') = ''2''"
  by code_simp+

lemma number_examples:
  "Number_toString other (Finite 1) = ''1''"
  "Number_toString other (Finite 2) = ''2''"
proof -
  have "decimalDigits 1 = ''1''" "decimalDigits 2 = ''2''" by code_simp+
  then show "Number_toString other (Finite 1) = ''1''" "Number_toString other (Finite 2) = ''2''"
    by (simp_all add: Number_toString_def)
qed

lemma query_examples:
  "sanitizeInput (Some (toLowerCase ''active'')) = ''active''"
  "sanitizeInput (Some (toLowerCase ''ab'')) = ''ab''"
  "sanitizeInput (Some (toLowerCase ''<>'')) = []"
  by code_simp+

lemma label_examples:
  "toLowerCase (getStatusLabel (JNum (Finite 1))) = ''active''"
  "toLowerCase (getStatusLabel (JNum (Finite 0))) = ''inactive''"
  "toLowerCase ''AB1'' = ''ab1''"
  "toLowerCase ''XY9'' = ''xy9''"
  "toLowerCase ''1'' = ''1''"
  "toLowerCase ''2'' = ''2''"
  unfolding getStatusLabel_def by code_simp+

lemma workCode_fields:
  "workCode1 ''short_work_code'' = JStr ''AB1''" "workCode1 ''status'' = JNum (Finite 1)"
  "workCode2 ''short_work_code'' = JStr ''XY9''" "workCode2 ''status'' = JNum (Finite 0)"
  "workCode1 ''work_code_id'' = JNum (Finite 1)" "workCode2 ''work_code_id'' = JNum (Finite 2)"
  by (simp_all add: workCode1_def workCode2_def)

lemma selected_active:
  "spec_selected other ''active'' [''short_work_code'', ''status''] workCode1"
  "spec_selected other ''active'' [''short_work_code'', ''status''] workCode2"
  by (simp_all add: spec_selected_def spec_fieldText_def workCode_fields label_examples
      sublist_Cons_right)

lemma selected_ab:
  "spec_selected other ''ab'' [''short_work_code'', ''status''] workCode1"
  "\<not> spec_selected other ''ab'' [''short_work_code'', ''status''] workCode2"
  by (simp_all add: spec_selected_def spec_fieldText_def workCode_fields label_examples
      sublist_Cons_right)

lemma selected_2:
  "\<not> spec_selected other ''2'' [''work_code_id'', ''short_work_code'', ''status''] workCode1"
  "spec_selected other ''2'' [''work_code_id'', ''short_work_code'', ''status''] workCode2"
  by (simp_all add: spec_selected_def spec_fieldText_def workCode_fields label_examples
      number_examples sublist_Cons_right)

lemma filter_active:
  "filterWorkCodes other [workCode1, workCode2] ''active'' [''short_work_code'', ''status'']
     = [workCode1, workCode2]"
  by (simp add: filterWorkCodes_nonempty trim_nonempty_examples query_examples selected_active)

section \<open>WorkCodeService.filterWorkCodes\<close>

text \<open>
  C1, as stated, fails: the label of status 0 is \<^verbatim>\<open>Inactive\<close>, whose lower-case form
  contains \<^verbatim>\<open>active\<close>, so the record with \<^verbatim>\<open>work_code_id\<close> 2 is returned as well.
\<close>

theorem filterWorkCodes_active_counterexample:
  "filterWorkCodes (\<lambda>_. []) [workCode1, workCode2] ''active'' [''short_work_code'', ''status'']
     \<noteq> [workCode1]"
  by (simp add: filter_active)

text \<open>
  C1, amended. For the two records \<^verbatim>\<open>{work_code_id:1, short_work_code:"AB1", status:1}\<close>
  and \<^verbatim>\<open>{work_code_id:2, short_work_code:"XY9", status:0}\<close>, the query \<^verbatim>\<open>"active"\<close> and the
  visible fields \<^verbatim>\<open>short_work_code\<close> and \<^verbatim>\<open>status\<close>, \<^verbatim>\<open>filterWorkCodes\<close> returns both
  records, in their order: the label \<^verbatim>\<open>Active\<close> of the first and the label \<^verbatim>\<open>Inactive\<close> of
  the second both contain the query.
\<close>

theorem filterWorkCodes_active:
  "filterWorkCodes other [workCode1, workCode2] ''active'' [''short_work_code'', ''status'']
     = [workCode1, workCode2]
   \<and> fieldMatches other ''active'' workCode1 ''status''
   \<and> fieldMatches other ''active'' workCode2 ''status''
   \<and> getStatusLabel (workCode2 ''status'') = ''Inactive''"
  by (simp add: filter_active fieldMatches_spec spec_fieldText_def workCode_fields
      label_examples sublist_Cons_right) (simp add: getStatusLabel_def)

text \<open>
  C2. For a query whose trimmed form is not empty, \<^verbatim>\<open>filterWorkCodes\<close> returns, in the
  order of the input, exactly the records for which at least one visible field whose
  value is neither null nor absent, as a string (a text as it is, a number printed, the
  status through \<^verbatim>\<open>getStatusLabel\<close>) and in lower case, contains the sanitized lower-cased
  query: the query in lower case, without its angle brackets, trimmed and cut to 1000
  characters. The result is a subsequence of the input, and a record whose listed fields
  are all null or absent is not in it.
\<close>

theorem filterWorkCodes_selects:
  assumes "trim searchQuery \<noteq> []"
  shows "filterWorkCodes other workCodes searchQuery visibleFields =
           filter (spec_selected other (spec_sanitized (toLowerCase searchQuery))
                     visibleFields) workCodes
         \<and> subseq (filterWorkCodes other workCodes searchQuery visibleFields) workCodes
         \<and> (\<forall>code. (\<forall>fieldName \<in> set visibleFields.
                        code fieldName = JNull \<or> code fieldName = JUndefined)
               \<longrightarrow> code \<notin> set (filterWorkCodes other workCodes searchQuery visibleFields))"
proof -
  let ?query = "spec_sanitized (toLowerCase searchQuery)"
  have "filterWorkCodes other workCodes searchQuery visibleFields =
      filter (spec_selected other (sanitizeInput (Some (toLowerCase searchQuery)))
                visibleFields) workCodes"
    using assms by (rule filterWorkCodes_nonempty)
  then have eq: "filterWorkCodes other workCodes searchQuery visibleFields =
      filter (spec_selected other ?query visibleFields) workCodes"
    by (simp only: sanitizeInput_spec)
  have "subseq (filterWorkCodes other workCodes searchQuery visibleFields) workCodes"
    unfolding eq by (rule subseq_filter_left)
  moreover have "code \<notin> set (filterWorkCodes other workCodes searchQuery visibleFields)"
    if "\<forall>fieldName \<in> set visibleFields. code fieldName = JNull \<or> code fieldName = JUndefined"
    for code
  proof -
    from that have "\<not> spec_selected other ?query visibleFields code"
      by (auto simp: spec_selected_def)
    then show ?thesis unfolding eq by simp
  qed
  ultimately show ?thesis using eq by blast
qed

theorem filterWorkCodes_selects_witness:
  "trim '' <A>b  '' \<noteq> []
   \<and> filterWorkCodes (\<lambda>_. []) [workCode1, workCode2] '' <A>b  ''
         [''short_work_code'', ''status'']
       = [workCode1]
   \<and> trim ''<2>'' \<noteq> []
   \<and> filterWorkCodes (\<lambda>_. []) [workCode1, workCode2] ''<2>''
         [''work_code_id'', ''short_work_code'', ''status'']
       = [workCode2]"
proof -
  have t1: "trim '' <A>b  '' \<noteq> []" and t2: "trim ''<2>'' \<noteq> []"
    by (rule trim_nonempty_examples)+
  from filterWorkCodes_selects [OF t1, of "\<lambda>_. []" "[workCode1, workCode2]"
      "[''short_work_code'', ''status'']"]
  have "filterWorkCodes (\<lambda>_. []) [workCode1, workCode2] '' <A>b  ''
        [''short_work_code'', ''status'']
      = filter (spec_selected (\<lambda>_. []) ''ab'' [''short_work_code'', ''status''])
          [workCode1, workCode2]"
    by (simp only: spec_query_examples)
  then have r1: "filterWorkCodes (\<lambda>_. []) [workCode1, workCode2] '' <A>b  ''
        [''short_work_code'', ''status''] = [workCode1]"
    by (simp add: selected_ab)
  from filterWorkCodes_selects [OF t2, of "\<lambda>_. []" "[workCode1, workCode2]"
      "[''work_code_id'', ''short_work_code'', ''status'']"]
  have "filterWorkCodes (\<lambda>_. []) [workCode1, workCode2] ''<2>''
        [''work_code_id'', ''short_work_code'', ''status'']
      = filter (spec_selected (\<lambda>_. []) ''2'' [''work_code_id'', ''short_work_code'', ''status''])
          [workCode1, workCode2]"
    by (simp only: spec_query_examples)
  then have r2: "filterWorkCodes (\<lambda>_. []) [workCode1, workCode2] ''<2>''
        [''work_code_id'', ''short_work_code'', ''status''] = [workCode2]"
    by (simp add: selected_2)
  from t1 r1 t2 r2 show ?thesis by (intro conjI)
qed

text \<open>
  C7. A query whose trimmed form is empty, the empty string among them, leaves the list
  as it is.
\<close>

theorem filterWorkCodes_blank_query:
  "trim searchQuery = [] \<Longrightarrow>
   filterWorkCodes other workCodes searchQuery visibleFields = workCodes"
  by (simp add: filterWorkCodes_def)

theorem filterWorkCodes_blank_query_witness:
  "trim [] = [] \<and> trim ''  '' = []
   \<and> filterWorkCodes (\<lambda>_. []) [workCode2, workCode1] [] [''status''] = [workCode2, workCode1]
   \<and> filterWorkCodes (\<lambda>_. []) [workCode2, workCode1] ''  '' [] = [workCode2, workCode1]"
proof -
  have e: "trim [] = []" by (simp add: trim_def)
  have b: "trim ''  '' = []" by (rule trim_nonempty_examples)
  show ?thesis
    using e b
      filterWorkCodes_blank_query [OF e, of "\<lambda>_. []" "[workCode2, workCode1]" "[''status'']"]
      filterWorkCodes_blank_query [OF b, of "\<lambda>_. []" "[workCode2, workCode1]" "[]"]
    by blast
qed

text \<open>
  C10. When the trimmed query is not empty but its sanitized lower-cased form is, as for
  \<^verbatim>\<open>"<>"\<close>, the result is the list of the records that have a visible field whose value
  is neither null nor undefined.
\<close>

theorem filterWorkCodes_bracket_query:
  assumes "trim searchQuery \<noteq> []"
    and "sanitizeInput (Some (toLowerCase searchQuery)) = []"
  shows "filterWorkCodes other workCodes searchQuery visibleFields =
           filter (\<lambda>code. \<exists>fieldName \<in> set visibleFields.
                      code fieldName \<noteq> JNull \<and> code fieldName \<noteq> JUndefined) workCodes"
  using assms
  by (simp add: filterWorkCodes_def fieldMatches_empty_query list_ex_iff Let_def)

theorem filterWorkCodes_bracket_query_witness:
  "trim ''<>'' \<noteq> [] \<and> sanitizeInput (Some (toLowerCase ''<>'')) = []
   \<and> filterWorkCodes (\<lambda>_. []) [emptyObject, workCode2, emptyObject(''status'' := JNull)] ''<>''
         [''status'', ''prefix'']
       = [workCode2]"
proof -
  have t: "trim ''<>'' \<noteq> []" by (rule trim_nonempty_examples)
  have q: "sanitizeInput (Some (toLowerCase ''<>'')) = []" by (rule query_examples)
  show ?thesis
    using t q
      filterWorkCodes_bracket_query [OF t q, of "\<lambda>_. []"
        "[emptyObject, workCode2, emptyObject(''status'' := JNull)]" "[''status'', ''prefix'']"]
    by (simp add: workCode_fields emptyObject_def)
qed

section \<open>Facts about the required-field check\<close>



lemma checkRequired_find:
  assumes "distinct (map fst fieldConfigs)" and "set entries \<subseteq> set fieldConfigs"
  shows "checkRequired formData fieldConfigs
           (map fst (filter (\<lambda>(_, config). required config \<and> visible config) entries)) =
         Inr (case find (\<lambda>(key, config). required config \<and> visible config \<and> falsy (formData key))
                     entries of
                None \<Rightarrow> \<lparr>isValid = True, missingField = None\<rparr>
              | Some (key, config) \<Rightarrow> \<lparr>isValid = False, missingField = Some (label config)\<rparr>)"
  using assms(2)
proof (induction entries)
  case Nil
  then show ?case by simp
next
  case (Cons entry rest)
  obtain key config where entry: "entry = (key, config)" by (cases entry)
  with Cons.prems have "(key, config) \<in> set fieldConfigs" by simp
  with assms(1) have "map_of fieldConfigs key = Some config" by (rule map_of_is_SomeI)
  with Cons entry show ?case by simp
qed

lemma validateRequiredFields_find:
  "distinct (map fst fieldConfigs) \<Longrightarrow>
   validateRequiredFields formData fieldConfigs =
     Inr (case firstMissing formData fieldConfigs of
            None \<Rightarrow> \<lparr>isValid = True, missingField = None\<rparr>
          | Some (key, config) \<Rightarrow> \<lparr>isValid = False, missingField = Some (label config)\<rparr>)"
  unfolding validateRequiredFields_def requiredFields_def firstMissing_def
  by (rule checkRequired_find) simp_all

lemma find_visible_only:
  "find (\<lambda>(key, config). required config \<and> visible config \<and> falsy (formData key))
     (filter (\<lambda>(key, config). visible config) entries) =
   find (\<lambda>(key, config). required config \<and> visible config \<and> falsy (formData key)) entries"
  by (induction entries) auto

lemma find_Some_holds: "find P xs = Some x \<Longrightarrow> P x \<and> x \<in> set xs"
  by (induction xs) (auto split: if_splits)

lemma firstMissing_Some:
  "firstMissing formData fieldConfigs = Some (key, config) \<Longrightarrow>
   required config \<and> visible config \<and> falsy (formData key) \<and> (key, config) \<in> set fieldConfigs"
  unfolding firstMissing_def by (drule find_Some_holds) simp





lemma defaultFields_distinct: "distinct (map fst defaultFields)"
  by (simp add: defaultFields_def)


section \<open>Validation of a submitted record\<close>




text \<open>
  C9. \<^verbatim>\<open>validateRequiredFields\<close> never reports a field that is configured not visible,
  even when it is required and its value is empty: the result is that of the
  configuration without its hidden fields. A failing result comes from a field that is
  required and visible and whose value is falsy, and it carries the label of the first
  such field in the entry order of the configuration.
\<close>

theorem validateRequiredFields_visible_only:
  assumes "distinct (map fst fieldConfigs)"
  shows "validateRequiredFields formData fieldConfigs =
           Inr (case firstMissing formData fieldConfigs of
                  None \<Rightarrow> \<lparr>isValid = True, missingField = None\<rparr>
                | Some (key, config) \<Rightarrow>
                    \<lparr>isValid = False, missingField = Some (label config)\<rparr>)
         \<and> (\<forall>key config. firstMissing formData fieldConfigs = Some (key, config) \<longrightarrow>
               required config \<and> visible config \<and> falsy (formData key)
               \<and> (key, config) \<in> set fieldConfigs)
         \<and> validateRequiredFields formData
               (filter (\<lambda>(key, config). visible config) fieldConfigs)
             = validateRequiredFields formData fieldConfigs"
proof -
  have d: "distinct (map fst (filter (\<lambda>(key, config). visible config) fieldConfigs))"
    using assms by (rule distinct_map_filter)
  have "firstMissing formData (filter (\<lambda>(key, config). visible config) fieldConfigs)
      = firstMissing formData fieldConfigs"
    unfolding firstMissing_def by (rule find_visible_only)
  then have "validateRequiredFields formData
               (filter (\<lambda>(key, config). visible config) fieldConfigs)
             = validateRequiredFields formData fieldConfigs"
    by (simp only: validateRequiredFields_find [OF d] validateRequiredFields_find [OF assms])
  then show ?thesis
    using validateRequiredFields_find [OF assms, of formData] firstMissing_Some [of formData fieldConfigs]
    by blast
qed

theorem validateRequiredFields_visible_only_witness:
  "distinct (map fst
      [(''prefix'', \<lparr>enabled = True, readonly = False, visible = False, label = ''Prefix'',
          hint = [], required = True\<rparr>),
       (''suffix'', \<lparr>enabled = True, readonly = False, visible = True, label = ''Suffix'',
          hint = [], required = True\<rparr>)])
   \<and> validateRequiredFields emptyObject
      [(''prefix'', \<lparr>enabled = True, readonly = False, visible = False, label = ''Prefix'',
          hint = [], required = True\<rparr>),
       (''suffix'', \<lparr>enabled = True, readonly = False, visible = True, label = ''Suffix'',
          hint = [], required = True\<rparr>)]
     = Inr \<lparr>isValid = False, missingField = Some ''Suffix''\<rparr>"
proof -
  let ?configs =
    "[(''prefix'', \<lparr>enabled = True, readonly = False, visible = False, label = ''Prefix'',
          hint = [], required = True\<rparr>),
      (''suffix'', \<lparr>enabled = True, readonly = False, visible = True, label = ''Suffix'',
          hint = [], required = True\<rparr>)]"
  have d: "distinct (map fst ?configs)" by simp
  have "firstMissing emptyObject ?configs =
      Some (''suffix'', \<lparr>enabled = True, readonly = False, visible = True, label = ''Suffix'',
          hint = [], required = True\<rparr>)"
    by (simp add: firstMissing_def falsy_def emptyObject_def)
  with d show ?thesis
    using validateRequiredFields_visible_only [OF d, of emptyObject] by simp
qed

end
